theory Spec2Isabelle
  imports Main "HOL-Library.Sublist" "HOL-Library.Char_ord" "HOL-Library.List_Lexorder"
begin

section \<open>Strings of the worker\<close>

text \<open>
  A JavaScript string is modelled by the bytes of its UTF-8 encoding (\<open>string\<close>, a list of
  8-bit characters). Header names, header values, URL serialisations and every literal of
  \<open>worker.js\<close> that takes part in a decision are ASCII, so that one character is one code
  unit there; a character outside ASCII is the two to four bytes of its encoding. A string
  that is not well-formed UTF-8 stands for a JavaScript string with a lone surrogate.
\<close>

definition toLowerCase_char :: "char \<Rightarrow> char" where
  "toLowerCase_char c =
     (let b = (of_char c :: nat) in if 65 \<le> b \<and> b \<le> 90 then char_of (b + 32) else c)"

definition toLowerCase :: "string \<Rightarrow> string" where
  "toLowerCase s = map toLowerCase_char s"

definition startsWith :: "string \<Rightarrow> string \<Rightarrow> bool" where
  "startsWith s p = prefix p s"

definition endsWith :: "string \<Rightarrow> string \<Rightarrow> bool" where
  "endsWith s p = suffix p s"

definition includes_str :: "string \<Rightarrow> string \<Rightarrow> bool" where
  "includes_str s p = sublist p s"

fun join :: "string \<Rightarrow> string list \<Rightarrow> string" where
  "join sep [] = []"
| "join sep [v] = v"
| "join sep (v # w # vs) = v @ sep @ join sep (w # vs)"

section \<open>Errors of the platform\<close>

datatype error_name = URIError | TypeError | RangeError

datatype js_error = JsError (name: error_name) (message: string)

section \<open>encodeURIComponent and decodeURIComponent\<close>

text \<open>
  The two built-ins follow the Encode and Decode operations of ECMAScript (sections
  19.2.6.5 and 19.2.6.6), on the UTF-8 model of strings: Encode writes every byte outside
  the unreserved set as \<open>%XX\<close> with upper-case digits and raises \<open>URIError\<close> for a string
  with a lone surrogate; Decode reads \<open>%XX\<close>, takes as many further escapes as the leading
  one bits of the first octet ask for, and raises \<open>URIError\<close> for an incomplete escape, a
  digit that is not hexadecimal, or octets that are not the UTF-8 encoding of a code point.
\<close>

definition leading_ones :: "char \<Rightarrow> nat" where
  "leading_ones c =
     (let b = (of_char c :: nat) in
      if b < 0x80 then 0 else if b < 0xC0 then 1 else if b < 0xE0 then 2
      else if b < 0xF0 then 3 else if b < 0xF8 then 4 else 5)"

definition in_range :: "nat \<Rightarrow> nat \<Rightarrow> char \<Rightarrow> bool" where
  "in_range lo hi c = (lo \<le> (of_char c :: nat) \<and> (of_char c :: nat) \<le> hi)"

fun valid_octets :: "string \<Rightarrow> bool" where
  "valid_octets [a, b] = (in_range 0xC2 0xDF a \<and> in_range 0x80 0xBF b)"
| "valid_octets [a, b, c] =
     ((in_range 0xE0 0xE0 a \<and> in_range 0xA0 0xBF b
       \<or> in_range 0xE1 0xEC a \<and> in_range 0x80 0xBF b
       \<or> in_range 0xED 0xED a \<and> in_range 0x80 0x9F b
       \<or> in_range 0xEE 0xEF a \<and> in_range 0x80 0xBF b)
      \<and> in_range 0x80 0xBF c)"
| "valid_octets [a, b, c, d] =
     ((in_range 0xF0 0xF0 a \<and> in_range 0x90 0xBF b
       \<or> in_range 0xF1 0xF3 a \<and> in_range 0x80 0xBF b
       \<or> in_range 0xF4 0xF4 a \<and> in_range 0x80 0x8F b)
      \<and> in_range 0x80 0xBF c \<and> in_range 0x80 0xBF d)"
| "valid_octets _ = False"

function well_formed :: "string \<Rightarrow> bool" where
  "well_formed [] = True"
| "well_formed (c # cs) =
     (let n = leading_ones c in
      if n = 0 then well_formed cs
      else if n = 1 \<or> 4 < n then False
      else n - 1 \<le> length cs \<and> valid_octets (c # take (n - 1) cs)
           \<and> well_formed (drop (n - 1) cs))"
  by pat_completeness auto
termination
  by (relation "measure length") auto

definition uriUnreserved :: "char \<Rightarrow> bool" where
  "uriUnreserved c =
     (c \<in> set ''ABCDEFGHIJKLMNOPQRSTUVWXYZabcdefghijklmnopqrstuvwxyz0123456789-_.!~*'()'')"

definition hex_digit :: "nat \<Rightarrow> char" where
  "hex_digit d = ''0123456789ABCDEF'' ! (d mod 16)"

definition escape :: "char \<Rightarrow> string" where
  "escape c =
     (if uriUnreserved c then [c]
      else [CHR ''%'', hex_digit ((of_char c :: nat) div 16), hex_digit ((of_char c :: nat) mod 16)])"

definition encodeURIComponent :: "string \<Rightarrow> js_error + string" where
  "encodeURIComponent s =
     (if well_formed s then Inr (concat (map escape s))
      else Inl (JsError URIError ''URI malformed''))"

definition hex_value :: "char \<Rightarrow> nat option" where
  "hex_value c =
     (let b = (of_char c :: nat) in
      if 48 \<le> b \<and> b \<le> 57 then Some (b - 48)
      else if 65 \<le> b \<and> b \<le> 70 then Some (b - 55)
      else if 97 \<le> b \<and> b \<le> 102 then Some (b - 87)
      else None)"

definition ParseHexOctet :: "char \<Rightarrow> char \<Rightarrow> char option" where
  "ParseHexOctet h l =
     (case hex_value h of None \<Rightarrow> None
      | Some x \<Rightarrow> (case hex_value l of None \<Rightarrow> None
          | Some y \<Rightarrow> Some (char_of (16 * x + y))))"

fun read_escapes :: "nat \<Rightarrow> string \<Rightarrow> string option" where
  "read_escapes 0 s = Some []"
| "read_escapes (Suc k) (p # h # l # s) =
     (if p = CHR ''%'' then
        (case ParseHexOctet h l of None \<Rightarrow> None
         | Some b \<Rightarrow> map_option ((#) b) (read_escapes k s))
      else None)"
| "read_escapes (Suc k) s = None"

function Decode :: "string \<Rightarrow> string option" where
  "Decode [] = Some []"
| "Decode (c # s) =
     (if c = CHR ''%'' then
        (case s of
          h # l # r \<Rightarrow>
            (case ParseHexOctet h l of None \<Rightarrow> None
             | Some b \<Rightarrow>
                 (let n = leading_ones b in
                  if n = 0 then map_option ((#) b) (Decode r)
                  else if n = 1 \<or> 4 < n then None
                  else (case read_escapes (n - 1) r of None \<Rightarrow> None
                        | Some octets \<Rightarrow>
                            if valid_octets (b # octets)
                            then map_option ((@) (b # octets)) (Decode (drop (3 * (n - 1)) r))
                            else None)))
        | _ \<Rightarrow> None)
      else map_option ((#) c) (Decode s))"
  by pat_completeness auto
termination
  by (relation "measure length") auto

definition decodeURIComponent :: "string \<Rightarrow> js_error + string" where
  "decodeURIComponent s =
     (case Decode s of None \<Rightarrow> Inl (JsError URIError ''URI malformed'') | Some r \<Rightarrow> Inr r)"

section \<open>Headers, requests and responses\<close>

text \<open>
  A \<open>Headers\<close> object is its header list, in order. Names are compared without regard to
  case; \<open>get\<close> joins the values of a name with a comma and a space and gives \<open>null\<close>
  (\<open>None\<close>) when there is none; \<open>set\<close> writes the value at the first header of the name
  and removes the others, or appends a new header. Copying a header list (the \<open>headers\<close>
  option of a constructor, \<open>new Headers(h)\<close>) keeps it. \<open>entries()\<close> sorts and combines:
  it yields the lower-case names in ascending order, each once with its values joined
  by a comma and a space, except \<open>set-cookie\<close>, which it yields once for each value.
\<close>

type_synonym headers = "(string \<times> string) list"

definition same_name :: "string \<Rightarrow> string \<Rightarrow> bool" where
  "same_name a b = (toLowerCase a = toLowerCase b)"

definition values_of :: "headers \<Rightarrow> string \<Rightarrow> string list" where
  "values_of hs n = map snd (filter (\<lambda>kv. same_name (fst kv) n) hs)"

definition hget :: "headers \<Rightarrow> string \<Rightarrow> string option" where
  "hget hs n = (case values_of hs n of [] \<Rightarrow> None | v # vs \<Rightarrow> Some (join '', '' (v # vs)))"

definition hhas :: "headers \<Rightarrow> string \<Rightarrow> bool" where
  "hhas hs n = list_ex (\<lambda>kv. same_name (fst kv) n) hs"

fun hset :: "headers \<Rightarrow> string \<Rightarrow> string \<Rightarrow> headers" where
  "hset [] n v = [(n, v)]"
| "hset (kv # hs) n v =
     (if same_name (fst kv) n
      then (fst kv, v) # filter (\<lambda>kw. \<not> same_name (fst kw) n) hs
      else kv # hset hs n v)"

definition entries :: "headers \<Rightarrow> headers" where
  "entries hs =
     concat (map (\<lambda>n. if n = ''set-cookie'' then map (Pair n) (values_of hs n)
                      else [(n, join '', '' (values_of hs n))])
       (sort (remdups (map (\<lambda>kv. toLowerCase (fst kv)) hs))))"

text \<open>
  A body is either bytes or the configuration page, the HTML template of \<open>getConfigPage\<close>
  filled with the host name; \<open>None\<close> is the \<open>null\<close> body.
\<close>

datatype body = Bytes string | ConfigPageHtml string

datatype redirect_mode = Follow | Manual

text \<open>
  The inbound request carries its URL as parsed by \<open>new URL(request.url)\<close>, which cannot
  fail on the URL of a received request; the outbound request carries the URL string.
\<close>

record url =
  host :: string
  hostname :: string
  pathname :: string

record 'u request =
  url :: 'u
  req_method :: string
  headers :: headers
  body :: "body option"
  redirect :: redirect_mode

record response =
  status :: nat
  statusText :: string
  headers :: headers
  body :: "body option"

text \<open>
  The platform: URL parsing for \<open>new Request(targetUrl, ...)\<close>, URL resolution for
  \<open>new URL(location, targetUrl).toString()\<close>, and the network behind \<open>fetch\<close>. Each gives
  the error it raises or the promise's rejection as \<open>Inl\<close>.
\<close>

record env =
  parse_url :: "string \<Rightarrow> js_error + string"
  resolve_url :: "string \<Rightarrow> string \<Rightarrow> js_error + string"
  fetch :: "string request \<Rightarrow> js_error + response"

definition new_Request ::
  "env \<Rightarrow> string \<Rightarrow> string \<Rightarrow> headers \<Rightarrow> body option \<Rightarrow> redirect_mode
   \<Rightarrow> js_error + string request" where
  "new_Request e input m hs b r =
     (case parse_url e input of
        Inl err \<Rightarrow> Inl err
      | Inr href \<Rightarrow>
          Inr \<lparr>url = href, req_method = m, request.headers = hs, request.body = b, redirect = r\<rparr>)"

text \<open>
  The \<open>Response\<close> constructor raises \<open>RangeError\<close> for a status outside 200 to 599 and
  \<open>TypeError\<close> for a body given with a null body status.
\<close>

definition new_Response ::
  "body option \<Rightarrow> nat \<Rightarrow> string \<Rightarrow> headers \<Rightarrow> js_error + response" where
  "new_Response b st stText hs =
     (if st < 200 \<or> 599 < st then
        Inl (JsError RangeError
          ''Responses may only be constructed with status codes in the range 200 to 599, inclusive.'')
      else if b \<noteq> None \<and> (st = 204 \<or> st = 205 \<or> st = 304) then
        Inl (JsError TypeError
          ''Response with null body status (101, 204, 205, or 304) cannot have a body.'')
      else Inr \<lparr>status = st, statusText = stText, headers = hs, body = b\<rparr>)"

section \<open>Global configuration\<close>

definition DEFAULT_HEADERS :: headers where
  "DEFAULT_HEADERS =
     [(''User-Agent'', ''Mozilla/5.0 (iPhone; CPU iPhone OS 17_5 like Mac OS X) AppleWebKit/605.1.15 (KHTML, like Gecko) Version/17.5 Mobile/15E148 Safari/604.1''),
      (''Accept'', ''text/html,application/xhtml+xml,application/xml;q=0.9,*/*;q=0.8''),
      (''Accept-Language'', ''zh-CN,zh;q=0.9,en;q=0.8''),
      (''Accept-Encoding'', ''gzip, deflate, br'')]"

text \<open>
  The patterns are regular expressions with the \<open>i\<close> flag: \<open>Anywhere alts\<close> matches a
  string with one of \<open>alts\<close> as a substring, \<open>AtEnd s\<close> one that ends with \<open>s\<close>, letters
  compared without regard to case. \<open>/rtmp[s]?:\/\//i\<close> is \<open>rtmp://\<close> or \<open>rtmps://\<close>
  anywhere.
\<close>

datatype pattern = Anywhere "string list" | AtEnd string

fun test :: "pattern \<Rightarrow> string \<Rightarrow> bool" where
  "test (Anywhere alts) s = list_ex (\<lambda>a. includes_str (toLowerCase s) (toLowerCase a)) alts"
| "test (AtEnd a) s = endsWith (toLowerCase s) (toLowerCase a)"

definition STREAMING_URL_PATTERNS :: "pattern list" where
  "STREAMING_URL_PATTERNS =
     [Anywhere [''rtmp://'', ''rtmps://''],
      AtEnd ''.flv'',
      AtEnd ''.m3u8'',
      AtEnd ''.ts'',
      AtEnd ''.mp4'',
      AtEnd ''.webm'',
      Anywhere [''hls''],
      Anywhere [''dash''],
      Anywhere [''stream''],
      Anywhere [''live''],
      Anywhere [''broadcast'']]"

definition EXCLUDED_HEADERS :: "string list" where
  "EXCLUDED_HEADERS = [''cf-'', ''x-forwarded-'', ''host'']"

section \<open>The worker\<close>

definition isStreamingUrl :: "string \<Rightarrow> bool" where
  "isStreamingUrl u = list_ex (\<lambda>pattern. test pattern u) STREAMING_URL_PATTERNS"

definition isStreamingMethod :: "'u request \<Rightarrow> bool" where
  "isStreamingMethod request =
     (let contentType =
        (case hget (request.headers request) ''content-type'' of None \<Rightarrow> [] | Some v \<Rightarrow> v)
      in includes_str contentType ''video/''
         \<or> includes_str contentType ''application/x-rtmp''
         \<or> includes_str contentType ''application/vnd.apple.mpegurl'')"

definition isExcluded :: "string \<Rightarrow> bool" where
  "isExcluded key =
     (let lowerKey = toLowerCase key
      in list_ex (\<lambda>prefix. startsWith lowerKey prefix) EXCLUDED_HEADERS)"

definition buildProxyHeaders :: "'u request \<Rightarrow> bool \<Rightarrow> headers" where
  "buildProxyHeaders request isStreaming =
     (let proxyHeaders =
        foldl (\<lambda>ph kv. if isExcluded (fst kv) then ph else hset ph (fst kv) (snd kv))
          DEFAULT_HEADERS (entries (request.headers request))
      in if isStreaming then
           hset (hset (hset proxyHeaders
             ''Cache-Control'' ''no-cache, no-store, must-revalidate'')
             ''Pragma'' ''no-cache'')
             ''Connection'' ''keep-alive''
         else proxyHeaders)"

definition addCorsHeaders :: "response \<Rightarrow> bool \<Rightarrow> response" where
  "addCorsHeaders response isStreaming =
     (let h = hset (hset (hset (hset (headers response)
            ''Access-Control-Allow-Origin'' ''*'')
            ''Access-Control-Allow-Methods'' ''GET, POST, PUT, DELETE, OPTIONS, HEAD'')
            ''Access-Control-Allow-Headers'' ''*'')
            ''Access-Control-Expose-Headers'' ''*''
      in response\<lparr>headers :=
           (if isStreaming then
              hset (hset h ''Access-Control-Allow-Credentials'' ''true'')
                ''Access-Control-Max-Age'' ''86400''
            else h)\<rparr>)"

definition handleStreamingResponse :: "response \<Rightarrow> js_error + response" where
  "handleStreamingResponse response =
     (let responseHeaders =
        hset (hset (hset (hset (headers response)
          ''Cache-Control'' ''no-cache, no-store, must-revalidate'')
          ''Pragma'' ''no-cache'')
          ''Expires'' ''0'')
          ''Connection'' ''keep-alive'';
        responseHeaders' =
          (if hhas (headers response) ''accept-ranges''
           then (case hget (headers response) ''accept-ranges'' of
                   None \<Rightarrow> responseHeaders
                 | Some v \<Rightarrow> hset responseHeaders ''Accept-Ranges'' v)
           else hset responseHeaders ''Accept-Ranges'' ''bytes'')
      in case new_Response (body response) (status response) (statusText response)
                responseHeaders' of
           Inl err \<Rightarrow> Inl err
         | Inr streamResponse \<Rightarrow> Inr (addCorsHeaders streamResponse True))"

text \<open>
  \<open>if (location)\<close> takes a string that is neither \<open>null\<close> nor empty. An error raised in
  \<open>handleResponse\<close>, an \<open>async\<close> function, rejects the promise it returns.
\<close>

definition handleResponse ::
  "env \<Rightarrow> response \<Rightarrow> url \<Rightarrow> string \<Rightarrow> bool \<Rightarrow> js_error + response" where
  "handleResponse e response originalUrl targetUrl isStreaming =
     (let notRedirected =
        (if isStreaming then handleStreamingResponse response
         else (case new_Response (body response) (status response)
                      (statusText response) (headers response) of
                 Inl err \<Rightarrow> Inl err
               | Inr modifiedResponse \<Rightarrow> Inr (addCorsHeaders modifiedResponse isStreaming)))
      in if status response \<in> set [301, 302, 303, 307, 308] then
           (case hget (headers response) ''location'' of
              Some (c # cs) \<Rightarrow>
                (case resolve_url e (c # cs) targetUrl of
                   Inl err \<Rightarrow> Inl err
                 | Inr redirectUrl \<Rightarrow>
                     (case encodeURIComponent redirectUrl of
                        Inl err \<Rightarrow> Inl err
                      | Inr encoded \<Rightarrow>
                          (let modifiedLocation =
                             ''https://'' @ host originalUrl @ ''/'' @ encoded
                           in case new_Response (body response) (status response)
                                     (statusText response) (headers response) of
                                Inl err \<Rightarrow> Inl err
                              | Inr redirectResponse \<Rightarrow>
                                  Inr (addCorsHeaders
                                    (redirectResponse\<lparr>headers :=
                                       hset (headers redirectResponse)
                                         ''Location'' modifiedLocation\<rparr>)
                                    isStreaming))))
            | _ \<Rightarrow> notRedirected)
         else notRedirected)"

text \<open>
  The constructor's defaults give the configuration page status 200 and an empty status
  text.
\<close>

definition getConfigPage :: "string \<Rightarrow> response" where
  "getConfigPage hostname' =
     \<lparr>status = 200, statusText = [],
      headers = [(''Content-Type'', ''text/html; charset=utf-8'')],
      body = Some (ConfigPageHtml hostname')\<rparr>"

text \<open>The prefix of the error body, \<open>U+4EE3 U+7406 U+9519 U+8BEF\<close>, a colon and a space.\<close>

definition proxy_error_prefix :: string where
  "proxy_error_prefix =
     [CHR 0xE4, CHR 0xBB, CHR 0xA3, CHR 0xE7, CHR 0x90, CHR 0x86,
      CHR 0xE9, CHR 0x94, CHR 0x99, CHR 0xE8, CHR 0xAF, CHR 0xAF] @ '': ''"

definition errorResponse :: "js_error \<Rightarrow> response" where
  "errorResponse error =
     \<lparr>status = 502, statusText = [],
      headers = [(''Content-Type'', ''text/plain; charset=utf-8'')],
      body = Some (Bytes (proxy_error_prefix @ message error))\<rparr>"

text \<open>
  \<open>handleRequest\<close> gives \<open>Inr\<close> the response it resolves to, or \<open>Inl\<close> the error it
  rejects with. The \<open>try\<close> block covers \<open>buildProxyHeaders\<close>, the \<open>Request\<close> constructor
  and the awaited \<open>fetch\<close>; \<open>decodeURIComponent\<close> runs before it, and the promise of
  \<open>handleResponse\<close> is returned without \<open>await\<close>, so that neither is caught.
\<close>

definition handleRequest :: "env \<Rightarrow> url request \<Rightarrow> js_error + response" where
  "handleRequest e request =
     (case decodeURIComponent (drop 1 (pathname (url request))) of
        Inl err \<Rightarrow> Inl err
      | Inr targetUrl \<Rightarrow>
          if targetUrl = [] then Inr (getConfigPage (hostname (url request)))
          else
            (let isStreamingRequest = (isStreamingUrl targetUrl \<or> isStreamingMethod request);
                 proxyHeaders = buildProxyHeaders request isStreamingRequest
             in case new_Request e targetUrl (req_method request) proxyHeaders
                       (request.body request) Manual of
                  Inl error \<Rightarrow> Inr (errorResponse error)
                | Inr proxyRequest \<Rightarrow>
                    (case fetch e proxyRequest of
                       Inl error \<Rightarrow> Inr (errorResponse error)
                     | Inr response \<Rightarrow>
                         handleResponse e response (url request) targetUrl isStreamingRequest)))"

section \<open>Names written by the response stages\<close>

text \<open>
  The header names that \<open>addCorsHeaders\<close> sets, those that \<open>handleStreamingResponse\<close>
  sets, and both together for a response of the given streaming verdict. \<open>header_of\<close> reads
  a header of the response that a run returned, if it returned one.
\<close>

definition corsNames :: "bool \<Rightarrow> string list" where
  "corsNames isStreaming =
     [''Access-Control-Allow-Origin'', ''Access-Control-Allow-Methods'',
      ''Access-Control-Allow-Headers'', ''Access-Control-Expose-Headers'']
     @ (if isStreaming then [''Access-Control-Allow-Credentials'', ''Access-Control-Max-Age'']
        else [])"

definition streamingNames :: "string list" where
  "streamingNames = [''Cache-Control'', ''Pragma'', ''Expires'', ''Connection'', ''Accept-Ranges'']"

definition writtenNames :: "bool \<Rightarrow> string list" where
  "writtenNames isStreaming = corsNames isStreaming @ (if isStreaming then streamingNames else [])"

definition header_of :: "js_error + response \<Rightarrow> string \<Rightarrow> string option" where
  "header_of res n = (case res of Inl err \<Rightarrow> None | Inr r \<Rightarrow> hget (headers r) n)"

section \<open>A sample platform and sample requests\<close>

text \<open>
  A platform for running the worker on concrete requests: it parses the \<open>http\<close>,
  \<open>https\<close> and \<open>rtmp\<close> URLs, resolves an absolute \<open>https\<close> location to itself and a
  location that starts with a slash against the origin of an \<open>https\<close> base, and answers
  every \<open>fetch\<close> with the given outcome.
\<close>

definition sample_origin :: "string \<Rightarrow> string" where
  "sample_origin base = take 8 base @ takeWhile (\<lambda>c. c \<noteq> CHR ''/'') (drop 8 base)"

definition sample_platform :: "js_error + response \<Rightarrow> env" where
  "sample_platform outcome =
     \<lparr>parse_url = (\<lambda>s.
        if startsWith s ''https://'' \<or> startsWith s ''http://'' \<or> startsWith s ''rtmp://''
        then Inr s else Inl (JsError TypeError ''Invalid URL'')),
      resolve_url = (\<lambda>l base.
        if startsWith l ''https://'' then Inr l
        else if startsWith l ''/'' \<and> startsWith base ''https://'' then Inr (sample_origin base @ l)
        else Inl (JsError TypeError ''Invalid URL'')),
      fetch = (\<lambda>rq. outcome)\<rparr>"

definition sample_request :: "string \<Rightarrow> headers \<Rightarrow> url request" where
  "sample_request path hs =
     \<lparr>url = \<lparr>host = ''proxy.test'', hostname = ''proxy.test'', pathname = path\<rparr>,
      req_method = ''GET'', request.headers = hs, request.body = None, redirect = Manual\<rparr>"

definition sample_response :: "nat \<Rightarrow> headers \<Rightarrow> response" where
  "sample_response st hs =
     \<lparr>status = st, statusText = [], headers = hs, body = Some (Bytes ''payload'')\<rparr>"

definition network_error :: js_error where
  "network_error = JsError TypeError ''Network connection lost.''"

section \<open>Properties of the URI functions\<close>

lemma hex_value_digit: "d < 16 \<Longrightarrow> hex_value (hex_digit d) = Some d"
proof -
  assume "d < 16"
  then have "d = 0 \<or> d = 1 \<or> d = 2 \<or> d = 3 \<or> d = 4 \<or> d = 5 \<or> d = 6 \<or> d = 7 \<or> d = 8
    \<or> d = 9 \<or> d = 10 \<or> d = 11 \<or> d = 12 \<or> d = 13 \<or> d = 14 \<or> d = 15" by arith
  then show ?thesis
    by (elim disjE) (simp_all add: hex_value_def hex_digit_def)
qed

lemma ParseHexOctet_escape:
  "ParseHexOctet (hex_digit (of_char c div 16)) (hex_digit (of_char c mod 16)) = Some c"
proof -
  have "(of_char c :: nat) < 256" by (rule nat_of_char_less_256)
  then have "(of_char c :: nat) div 16 < 16" by arith
  then show ?thesis
    by (simp add: ParseHexOctet_def hex_value_digit)
qed

lemma unreserved_ascii: "uriUnreserved c \<Longrightarrow> leading_ones c = 0 \<and> c \<noteq> CHR ''%''"
  by (auto simp: uriUnreserved_def leading_ones_def)

lemma Decode_escape:
  "leading_ones c = 0 \<Longrightarrow> Decode (escape c @ r) = map_option ((#) c) (Decode r)"
  by (auto simp: escape_def ParseHexOctet_escape dest: unreserved_ascii)

lemma escape_high:
  "leading_ones c \<noteq> 0 \<Longrightarrow>
   escape c = [CHR ''%'', hex_digit (of_char c div 16), hex_digit (of_char c mod 16)]"
  using unreserved_ascii [of c] by (auto simp: escape_def)

lemma read_escapes_escape:
  "list_all (\<lambda>c. leading_ones c \<noteq> 0) xs \<Longrightarrow>
   read_escapes (length xs) (concat (map escape xs) @ r) = Some xs"
  by (induction xs) (simp_all add: escape_high ParseHexOctet_escape)

lemma length_escapes:
  "list_all (\<lambda>c. leading_ones c \<noteq> 0) xs \<Longrightarrow> length (concat (map escape xs)) = 3 * length xs"
  by (induction xs) (simp_all add: escape_high)

lemma drop_escape:
  "list_all (\<lambda>c. leading_ones c \<noteq> 0) xs \<Longrightarrow>
   drop (3 * length xs) (concat (map escape xs) @ r) = r"
  using length_escapes [of xs] by simp

lemma in_range_cont: "in_range lo hi c \<Longrightarrow> 0x80 \<le> lo \<Longrightarrow> leading_ones c \<noteq> 0"
  by (simp add: in_range_def leading_ones_def Let_def)

lemma valid_octets_tail:
  "valid_octets (c # xs) \<Longrightarrow> list_all (\<lambda>c. leading_ones c \<noteq> 0) xs"
  by (induction "c # xs" rule: valid_octets.induct)
     (auto simp: in_range_def leading_ones_def Let_def)

lemma Decode_multi:
  assumes n: "leading_ones c \<noteq> 0" "leading_ones c \<noteq> 1" "\<not> 4 < leading_ones c"
    and len: "length xs = leading_ones c - 1"
    and ok: "valid_octets (c # xs)"
  shows "Decode (concat (map escape (c # xs)) @ r) = map_option ((@) (c # xs)) (Decode r)"
proof -
  have hi: "list_all (\<lambda>c. leading_ones c \<noteq> 0) xs"
    using ok by (rule valid_octets_tail)
  have rd: "read_escapes (leading_ones c - 1) (concat (map escape xs) @ r) = Some xs"
    using read_escapes_escape [OF hi, of r] len by simp
  have dr: "drop (3 * (leading_ones c - 1)) (concat (map escape xs) @ r) = r"
    using drop_escape [OF hi, of r] len by simp
  show ?thesis
    using n ok rd dr by (simp add: escape_high ParseHexOctet_escape Let_def)
qed

lemma Decode_encode: "well_formed s \<Longrightarrow> Decode (concat (map escape s)) = Some s"
proof (induction s rule: well_formed.induct)
  case 1
  show ?case by simp
next
  case (2 c cs)
  show ?case
  proof (cases "leading_ones c = 0")
    case True
    with 2 have "Decode (concat (map escape cs)) = Some cs" by simp
    with True show ?thesis
      using Decode_escape [of c "concat (map escape cs)"] by simp
  next
    case False
    with "2.prems" have n: "leading_ones c \<noteq> 1" "\<not> 4 < leading_ones c"
      and len: "leading_ones c - 1 \<le> length cs"
      and ok: "valid_octets (c # take (leading_ones c - 1) cs)"
      and wf: "well_formed (drop (leading_ones c - 1) cs)"
      by (auto simp: Let_def split: if_splits)
    let ?xs = "take (leading_ones c - 1) cs" and ?ys = "drop (leading_ones c - 1) cs"
    have ih: "Decode (concat (map escape ?ys)) = Some ?ys"
      using "2.IH"(2) False n wf by simp
    have l: "length ?xs = leading_ones c - 1" using len by simp
    have "concat (map escape (c # cs)) = concat (map escape (c # ?xs)) @ concat (map escape ?ys)"
      by (metis append_take_drop_id concat_append map_append append_Cons)
    then show ?thesis
      using Decode_multi [OF False n l ok, of "concat (map escape ?ys)"] ih by simp
  qed
qed

lemma ascii_well_formed: "list_all (\<lambda>c. leading_ones c = 0) s \<Longrightarrow> well_formed s"
  by (induction s) simp_all

lemma Decode_empty: "Decode s = Some [] \<Longrightarrow> s = []"
  by (cases s) (auto simp: Let_def split: if_splits list.splits option.splits)

section \<open>Properties of header lists\<close>

lemma same_name_refl [simp]: "same_name a a"
  by (simp add: same_name_def)

lemma same_name_sym: "same_name a b \<Longrightarrow> same_name b a"
  by (simp add: same_name_def)

lemma same_name_trans: "same_name a b \<Longrightarrow> same_name b c \<Longrightarrow> same_name a c"
  by (simp add: same_name_def)

lemma same_name_cong: "same_name a b \<Longrightarrow> same_name a c = same_name b c"
  by (auto simp: same_name_def)

lemma values_of_Nil [simp]: "values_of [] n = []"
  by (simp add: values_of_def)

lemma values_of_Cons:
  "values_of (kv # hs) n = (if same_name (fst kv) n then snd kv # values_of hs n else values_of hs n)"
  by (simp add: values_of_def)

lemma values_of_filter_other:
  "\<not> same_name n m \<Longrightarrow> values_of (filter (\<lambda>kw. \<not> same_name (fst kw) n) hs) m = values_of hs m"
  by (induction hs) (auto simp: values_of_Cons same_name_def)

lemma values_of_filter_same:
  "same_name n m \<Longrightarrow> values_of (filter (\<lambda>kw. \<not> same_name (fst kw) n) hs) m = []"
  by (induction hs) (auto simp: values_of_Cons same_name_def)

lemma values_of_hset:
  "values_of (hset hs n v) m = (if same_name n m then [v] else values_of hs m)"
proof (induction hs)
  case Nil
  show ?case by (simp add: values_of_Cons)
next
  case (Cons kv hs)
  show ?case
  proof (cases "same_name (fst kv) n")
    case True
    then have eq: "same_name (fst kv) m = same_name n m"
      by (rule same_name_cong)
    show ?thesis
      using True eq by (simp add: values_of_Cons values_of_filter_other values_of_filter_same)
  next
    case False
    then have "same_name n m \<Longrightarrow> \<not> same_name (fst kv) m"
      by (auto simp: same_name_def)
    with False Cons show ?thesis
      by (auto simp: values_of_Cons)
  qed
qed

lemma hget_hset: "hget (hset hs n v) m = (if same_name n m then Some v else hget hs m)"
  by (simp add: hget_def values_of_hset)

lemma hhas_hget: "hhas hs n = (hget hs n \<noteq> None)"
  by (induction hs) (auto simp: hhas_def hget_def values_of_Cons split: list.splits)

lemma hget_cong: "same_name a b \<Longrightarrow> hget hs a = hget hs b"
proof -
  assume "same_name a b"
  then have "values_of hs a = values_of hs b"
    by (induction hs) (auto simp: values_of_Cons same_name_def)
  then show ?thesis by (simp add: hget_def)
qed

section \<open>The request orchestrator\<close>

lemma hget_content_type_single:
  "hget [(''Content-Type'', v)] ''Content-Type'' = Some v"
  by (simp add: hget_def values_of_Cons)

lemma decode_sample_malformed:
  "decodeURIComponent ''%E0%A4%A'' = Inl (JsError URIError ''URI malformed'')"
  by code_simp

lemma decode_sample_target:
  "decodeURIComponent ''https%3A%2F%2Forigin.test%2Fa'' = Inr ''https://origin.test/a''"
  by code_simp

lemma decode_sample_bare_path: "decodeURIComponent ''%2Ffoo'' = Inr ''/foo''"
  by code_simp

lemma sample_parse_https:
  "parse_url (sample_platform out) (''https://'' @ s) = Inr (''https://'' @ s)"
  by (simp add: sample_platform_def startsWith_def)

lemma decode_failure_rejects:
  "decodeURIComponent (drop 1 (pathname (url req))) = Inl err \<Longrightarrow> handleRequest e req = Inl err"
  by (simp add: handleRequest_def)

text \<open>
  C1: a request whose path holds a malformed percent-escape should get the synthetic 502
  response. The decoding runs before the \<open>try\<close> block: at the path \<open>/%E0%A4%A\<close> the
  worker rejects with \<open>URIError\<close> and returns no response, whatever the platform and the
  headers.
\<close>

theorem malformed_escape_unhandled:
  "handleRequest e (sample_request ''/%E0%A4%A'' hs) = Inl (JsError URIError ''URI malformed'')"
  by (simp add: handleRequest_def sample_request_def decode_sample_malformed)

text \<open>
  C7: when the path decodes to the empty string, the result is the configuration page,
  with status 200 and the content type \<open>text/html; charset=utf-8\<close>, and stays the same
  when the method, the headers and the body of the request change.
\<close>

theorem empty_target_config_page:
  assumes "decodeURIComponent (drop 1 (pathname (url req))) = Inr []"
  shows "handleRequest e req = Inr (getConfigPage (hostname (url req)))
    \<and> status (getConfigPage (hostname (url req))) = 200
    \<and> hget (headers (getConfigPage (hostname (url req)))) ''Content-Type''
        = Some ''text/html; charset=utf-8''
    \<and> handleRequest e (req\<lparr>req_method := m, request.headers := hs, request.body := b\<rparr>)
        = handleRequest e req"
  using assms by (simp add: handleRequest_def getConfigPage_def hget_content_type_single)

theorem empty_target_config_page_witness:
  "decodeURIComponent (drop 1 (pathname (url (sample_request ''/'' [])))) = Inr []
   \<and> handleRequest (sample_platform (Inl network_error)) (sample_request ''/'' [])
       = Inr (getConfigPage ''proxy.test'')
   \<and> handleRequest (sample_platform (Inl network_error))
        ((sample_request ''/'' [])\<lparr>req_method := ''POST'', request.headers := [(''x'', ''y'')],
           request.body := Some (Bytes ''z'')\<rparr>)
       = Inr (getConfigPage ''proxy.test'')"
proof -
  have h: "decodeURIComponent (drop 1 (pathname (url (sample_request ''/'' [])))) = Inr []"
    by (simp add: sample_request_def decodeURIComponent_def)
  show ?thesis
    using h empty_target_config_page [OF h, where e = "sample_platform (Inl network_error)"
        and m = "''POST''" and hs = "[(''x'', ''y'')]" and b = "Some (Bytes ''z'')"]
    by (simp add: sample_request_def)
qed

text \<open>
  C6: when the outbound \<open>fetch\<close> fails, \<open>handleRequest\<close> returns a response with status
  502, the content type \<open>text/plain; charset=utf-8\<close> and a body that is not empty: the
  prefix followed by the message of the error. It does not reject.
\<close>

theorem transport_failure_502:
  assumes "decodeURIComponent (drop 1 (pathname (url req))) = Inr t" and "t \<noteq> []"
    and "new_Request e t (req_method req)
           (buildProxyHeaders req (isStreamingUrl t \<or> isStreamingMethod req))
           (request.body req) Manual = Inr pr"
    and "fetch e pr = Inl err"
  shows "handleRequest e req = Inr (errorResponse err)
    \<and> status (errorResponse err) = 502
    \<and> body (errorResponse err) = Some (Bytes (proxy_error_prefix @ message err))
    \<and> proxy_error_prefix @ message err \<noteq> []
    \<and> hget (headers (errorResponse err)) ''Content-Type'' = Some ''text/plain; charset=utf-8''"
  using assms
  by (simp add: handleRequest_def errorResponse_def hget_content_type_single
      proxy_error_prefix_def Let_def)

theorem transport_failure_502_witness:
  "handleRequest (sample_platform (Inl network_error))
     (sample_request ''/https%3A%2F%2Forigin.test%2Fa'' [])
     = Inr (errorResponse network_error)
   \<and> status (errorResponse network_error) = 502"
proof -
  let ?e = "sample_platform (Inl network_error)"
  let ?req = "sample_request ''/https%3A%2F%2Forigin.test%2Fa'' []"
  let ?t = "''https://origin.test/a''"
  let ?pr = "\<lparr>url = ?t, req_method = req_method ?req,
       request.headers = buildProxyHeaders ?req (isStreamingUrl ?t \<or> isStreamingMethod ?req),
       request.body = request.body ?req, redirect = Manual\<rparr>"
  have h1: "decodeURIComponent (drop 1 (pathname (url ?req))) = Inr ?t"
    by (simp add: sample_request_def decode_sample_target)
  have h2: "?t \<noteq> []" by simp
  have h3: "new_Request ?e ?t (req_method ?req)
           (buildProxyHeaders ?req (isStreamingUrl ?t \<or> isStreamingMethod ?req))
           (request.body ?req) Manual = Inr ?pr"
    using sample_parse_https [of "Inl network_error" "''origin.test/a''"]
    by (simp add: new_Request_def)
  have h4: "fetch ?e ?pr = Inl network_error"
    by (simp add: sample_platform_def)
  show ?thesis
    using transport_failure_502 [OF h1 h2 h3 h4] by simp
qed

text \<open>
  C10: when the path decodes to a string that is not empty and that the platform does not
  parse as an absolute URL, the \<open>Request\<close> constructor raises inside the \<open>try\<close> block and
  \<open>handleRequest\<close> returns the synthetic 502 plain-text response, which is not the
  configuration page. It does not reject.
\<close>

theorem invalid_target_502:
  assumes "decodeURIComponent (drop 1 (pathname (url req))) = Inr t" and "t \<noteq> []"
    and "parse_url e t = Inl err"
  shows "handleRequest e req = Inr (errorResponse err)
    \<and> status (errorResponse err) = 502
    \<and> body (errorResponse err) = Some (Bytes (proxy_error_prefix @ message err))
    \<and> hget (headers (errorResponse err)) ''Content-Type'' = Some ''text/plain; charset=utf-8''
    \<and> errorResponse err \<noteq> getConfigPage (hostname (url req))"
  using assms
  by (simp add: handleRequest_def new_Request_def errorResponse_def getConfigPage_def
      hget_content_type_single Let_def)

theorem invalid_target_502_witness:
  "handleRequest (sample_platform (Inr (sample_response 200 []))) (sample_request ''/%2Ffoo'' [])
     = Inr (errorResponse (JsError TypeError ''Invalid URL''))
   \<and> status (errorResponse (JsError TypeError ''Invalid URL'')) = 502"
proof -
  let ?e = "sample_platform (Inr (sample_response 200 []))"
  let ?req = "sample_request ''/%2Ffoo'' []"
  have h1: "decodeURIComponent (drop 1 (pathname (url ?req))) = Inr ''/foo''"
    by (simp add: sample_request_def decode_sample_bare_path)
  have h2: "''/foo'' \<noteq> []" by simp
  have h3: "parse_url ?e ''/foo'' = Inl (JsError TypeError ''Invalid URL'')"
    by (simp add: sample_platform_def startsWith_def)
  show ?thesis
    using invalid_target_502 [OF h1 h2 h3] by simp
qed

section \<open>The response stages\<close>

lemma new_Response_Inr:
  "new_Response b st tx hs = Inr r \<Longrightarrow>
   r = \<lparr>status = st, statusText = tx, headers = hs, body = b\<rparr>"
  by (auto simp: new_Response_def split: if_splits)

lemma new_Response_redirect_status:
  "st \<in> set [301, 302, 303, 307, 308] \<Longrightarrow>
   new_Response b st tx hs = Inr \<lparr>status = st, statusText = tx, headers = hs, body = b\<rparr>"
  by (auto simp: new_Response_def)

lemma addCorsHeaders_fields:
  "status (addCorsHeaders r s) = status r \<and> statusText (addCorsHeaders r s) = statusText r
   \<and> body (addCorsHeaders r s) = body r"
  by (simp add: addCorsHeaders_def Let_def)

lemma addCorsHeaders_hget:
  "hget (headers (addCorsHeaders r s)) n =
     (if s \<and> same_name ''Access-Control-Max-Age'' n then Some ''86400''
      else if s \<and> same_name ''Access-Control-Allow-Credentials'' n then Some ''true''
      else if same_name ''Access-Control-Expose-Headers'' n then Some ''*''
      else if same_name ''Access-Control-Allow-Headers'' n then Some ''*''
      else if same_name ''Access-Control-Allow-Methods'' n
        then Some ''GET, POST, PUT, DELETE, OPTIONS, HEAD''
      else if same_name ''Access-Control-Allow-Origin'' n then Some ''*''
      else hget (headers r) n)"
  by (simp add: addCorsHeaders_def Let_def hget_hset)

lemma name_eval:
  "same_name ''Access-Control-Max-Age'' ''Access-Control-Allow-Origin'' = False"
  "same_name ''Access-Control-Allow-Credentials'' ''Access-Control-Allow-Origin'' = False"
  "same_name ''Access-Control-Expose-Headers'' ''Access-Control-Allow-Origin'' = False"
  "same_name ''Access-Control-Allow-Headers'' ''Access-Control-Allow-Origin'' = False"
  "same_name ''Access-Control-Allow-Methods'' ''Access-Control-Allow-Origin'' = False"
  by (simp_all add: same_name_def toLowerCase_def toLowerCase_char_def)

lemma addCorsHeaders_origin:
  "hget (headers (addCorsHeaders r s)) ''Access-Control-Allow-Origin'' = Some ''*''"
  by (simp add: addCorsHeaders_hget name_eval)


lemma addCorsHeaders_other:
  "\<not> list_ex (\<lambda>w. same_name w n) (corsNames s) \<Longrightarrow>
   hget (headers (addCorsHeaders r s)) n = hget (headers r) n"
  by (cases s) (simp_all add: addCorsHeaders_hget corsNames_def)

lemma handleStreamingResponse_Inr:
  assumes "handleStreamingResponse resp = Inr r"
  shows "\<exists>hs. r = addCorsHeaders
           \<lparr>status = status resp, statusText = statusText resp, headers = hs, body = body resp\<rparr> True
         \<and> (\<forall>n. hget hs n =
              (if same_name ''Accept-Ranges'' n
                 then Some (case hget (headers resp) ''accept-ranges'' of
                              None \<Rightarrow> ''bytes'' | Some v \<Rightarrow> v)
               else if same_name ''Connection'' n then Some ''keep-alive''
               else if same_name ''Expires'' n then Some ''0''
               else if same_name ''Pragma'' n then Some ''no-cache''
               else if same_name ''Cache-Control'' n
                 then Some ''no-cache, no-store, must-revalidate''
               else hget (headers resp) n))"
proof -
  let ?h = "hset (hset (hset (hset (headers resp)
          ''Cache-Control'' ''no-cache, no-store, must-revalidate'')
          ''Pragma'' ''no-cache'')
          ''Expires'' ''0'')
          ''Connection'' ''keep-alive''"
  let ?h' = "hset ?h ''Accept-Ranges''
     (case hget (headers resp) ''accept-ranges'' of None \<Rightarrow> ''bytes'' | Some v \<Rightarrow> v)"
  have eq: "(if hhas (headers resp) ''accept-ranges''
           then (case hget (headers resp) ''accept-ranges'' of
                   None \<Rightarrow> ?h | Some v \<Rightarrow> hset ?h ''Accept-Ranges'' v)
           else hset ?h ''Accept-Ranges'' ''bytes'') = ?h'"
    by (auto simp: hhas_hget split: option.splits)
  from assms have "new_Response (body resp) (status resp) (statusText resp) ?h' \<noteq> Inl err" for err
    unfolding handleStreamingResponse_def Let_def eq by auto
  then obtain r0 where r0: "new_Response (body resp) (status resp) (statusText resp) ?h' = Inr r0"
    by (cases "new_Response (body resp) (status resp) (statusText resp) ?h'") auto
  with assms have r: "r = addCorsHeaders r0 True"
    unfolding handleStreamingResponse_def Let_def eq by simp
  have "r0 = \<lparr>status = status resp, statusText = statusText resp, headers = ?h', body = body resp\<rparr>"
    using r0 by (rule new_Response_Inr)
  with r show ?thesis
    by (intro exI [of _ ?h']) (simp add: hget_hset)
qed

lemma stream_name_eval:
  "\<not> list_ex (\<lambda>w. same_name w ''Cache-Control'') (corsNames True)"
  "\<not> list_ex (\<lambda>w. same_name w ''Connection'') (corsNames True)"
  "same_name ''Accept-Ranges'' ''Cache-Control'' = False"
  "same_name ''Connection'' ''Cache-Control'' = False"
  "same_name ''Expires'' ''Cache-Control'' = False"
  "same_name ''Pragma'' ''Cache-Control'' = False"
  "same_name ''Accept-Ranges'' ''Connection'' = False"
  by (simp_all add: corsNames_def same_name_def toLowerCase_def toLowerCase_char_def)

lemma handleStreamingResponse_shaping:
  assumes "handleStreamingResponse resp = Inr r"
  shows "hget (headers r) ''Cache-Control'' = Some ''no-cache, no-store, must-revalidate''
    \<and> hget (headers r) ''Connection'' = Some ''keep-alive''"
proof -
  from handleStreamingResponse_Inr [OF assms] obtain hs
    where r: "r = addCorsHeaders
           \<lparr>status = status resp, statusText = statusText resp, headers = hs, body = body resp\<rparr> True"
    and hs: "hget hs ''Cache-Control'' = Some ''no-cache, no-store, must-revalidate''"
      "hget hs ''Connection'' = Some ''keep-alive''"
    by (auto simp: stream_name_eval)
  show ?thesis
    using hs by (simp add: r addCorsHeaders_other stream_name_eval)
qed

lemma handleResponse_not_redirected:
  assumes "status resp \<notin> set [301, 302, 303, 307, 308]
     \<or> hget (headers resp) ''location'' = None \<or> hget (headers resp) ''location'' = Some []"
  shows "handleResponse e resp ou t s =
     (if s then handleStreamingResponse resp
      else (case new_Response (body resp) (status resp) (statusText resp) (headers resp) of
              Inl err \<Rightarrow> Inl err
            | Inr modifiedResponse \<Rightarrow> Inr (addCorsHeaders modifiedResponse s)))"
  using assms by (auto simp: handleResponse_def Let_def)

lemma handleResponse_redirected:
  assumes "status resp \<in> set [301, 302, 303, 307, 308]"
    and "hget (headers resp) ''location'' = Some loc" and "loc \<noteq> []"
    and "resolve_url e loc t = Inr u" and "encodeURIComponent u = Inr p"
  shows "handleResponse e resp ou t s =
     Inr (addCorsHeaders
       (resp\<lparr>headers := hset (headers resp) ''Location'' (''https://'' @ host ou @ ''/'' @ p)\<rparr>) s)"
proof -
  obtain c cs where loc: "loc = c # cs" using assms(3) by (cases loc) auto
  have nr: "new_Response (body resp) (status resp) (statusText resp) (headers resp) = Inr resp"
    using new_Response_redirect_status [OF assms(1)] by simp
  show ?thesis
    using assms(1,2,4,5) unfolding loc handleResponse_def Let_def nr by simp
qed

lemma location_name_eval:
  "\<not> list_ex (\<lambda>w. same_name w ''Location'') (writtenNames True)"
  "\<not> list_ex (\<lambda>w. same_name w ''Location'') (corsNames s)"
  by (simp_all add: writtenNames_def corsNames_def streamingNames_def same_name_def
      toLowerCase_def toLowerCase_char_def)

lemma location_same_name: "same_name ''location'' ''Location''"
  by code_simp

lemma handleStreamingResponse_other:
  assumes "handleStreamingResponse resp = Inr r"
    and "\<not> list_ex (\<lambda>w. same_name w n) (writtenNames True)"
  shows "hget (headers r) n = hget (headers resp) n"
proof -
  from handleStreamingResponse_Inr [OF assms(1)] obtain hs
    where r: "r = addCorsHeaders
           \<lparr>status = status resp, statusText = statusText resp, headers = hs, body = body resp\<rparr> True"
    and hs: "\<forall>n. hget hs n =
              (if same_name ''Accept-Ranges'' n
                 then Some (case hget (headers resp) ''accept-ranges'' of
                              None \<Rightarrow> ''bytes'' | Some v \<Rightarrow> v)
               else if same_name ''Connection'' n then Some ''keep-alive''
               else if same_name ''Expires'' n then Some ''0''
               else if same_name ''Pragma'' n then Some ''no-cache''
               else if same_name ''Cache-Control'' n
                 then Some ''no-cache, no-store, must-revalidate''
               else hget (headers resp) n)"
    by blast
  have c: "\<not> list_ex (\<lambda>w. same_name w n) (corsNames True)"
    and st: "\<not> list_ex (\<lambda>w. same_name w n) streamingNames"
    using assms(2) by (simp_all add: writtenNames_def)
  have "hget hs n = hget (headers resp) n"
    using st by (simp add: hs streamingNames_def)
  then show ?thesis
    by (simp add: r addCorsHeaders_other [OF c])
qed

lemma redirect_location_hget:
  "hget (headers (addCorsHeaders (resp\<lparr>headers := hset (headers resp) ''Location'' v\<rparr>) s))
     ''Location'' = Some v"
  by (simp add: addCorsHeaders_other location_name_eval hget_hset)

lemma handleResponse_decorated:
  assumes "handleResponse e resp ou t s = Inr r"
  shows "\<exists>r0 s'. r = addCorsHeaders r0 s'"
proof (cases "status resp \<notin> set [301, 302, 303, 307, 308]
     \<or> hget (headers resp) ''location'' = None \<or> hget (headers resp) ''location'' = Some []")
  case True
  show ?thesis
  proof (cases s)
    case True
    with \<open>status resp \<notin> set [301, 302, 303, 307, 308]
     \<or> hget (headers resp) ''location'' = None \<or> hget (headers resp) ''location'' = Some []\<close>
    have "handleStreamingResponse resp = Inr r"
      using assms handleResponse_not_redirected [of resp e ou t s] by simp
    from handleStreamingResponse_Inr [OF this] show ?thesis by blast
  next
    case False
    with True assms show ?thesis
      using handleResponse_not_redirected [of resp e ou t s]
      by (auto split: sum.splits)
  qed
next
  case False
  then obtain c cs where "status resp \<in> set [301, 302, 303, 307, 308]"
    "hget (headers resp) ''location'' = Some (c # cs)"
    by (cases "hget (headers resp) ''location''"; cases "the (hget (headers resp) ''location'')") auto
  with assms show ?thesis
    unfolding handleResponse_def Let_def
    by (auto split: sum.splits)
qed

lemma handleRequest_cases:
  assumes "handleRequest e req = Inr r"
  shows "r = getConfigPage (hostname (url req)) \<or> (\<exists>err. r = errorResponse err)
    \<or> (\<exists>resp t s. handleResponse e resp (url req) t s = Inr r)"
  using assms unfolding handleRequest_def Let_def
  by (auto split: sum.splits if_splits)

lemma config_page_no_cors:
  "hget (headers (getConfigPage h)) ''Access-Control-Allow-Origin'' = None"
  by (simp add: getConfigPage_def hget_def values_of_Cons same_name_def toLowerCase_def
      toLowerCase_char_def)

section \<open>Runs on the sample platform\<close>

lemma handleRequest_proxied:
  assumes "decodeURIComponent (drop 1 (pathname (url req))) = Inr t" and "t \<noteq> []"
    and "new_Request e t (req_method req)
           (buildProxyHeaders req (isStreamingUrl t \<or> isStreamingMethod req))
           (request.body req) Manual = Inr pr"
    and "fetch e pr = Inr resp"
  shows "handleRequest e req =
     handleResponse e resp (url req) t (isStreamingUrl t \<or> isStreamingMethod req)"
  using assms by (simp add: handleRequest_def Let_def)

lemma sample_fetch: "fetch (sample_platform out) pr = out"
  by (simp add: sample_platform_def)

lemma sample_resolve_next:
  "resolve_url (sample_platform out) ''/next'' ''https://origin.test/a''
   = Inr ''https://origin.test/next''"
  by (simp add: sample_platform_def startsWith_def sample_origin_def)

lemma sample_resolve_absolute:
  "resolve_url (sample_platform out) (''https://'' @ l) base = Inr (''https://'' @ l)"
  by (simp add: sample_platform_def startsWith_def)

lemma sample_no_content_type: "isStreamingMethod (sample_request path []) = False"
  by (simp add: isStreamingMethod_def sample_request_def hget_def includes_str_def)

lemma sample_proxied:
  assumes "decodeURIComponent path = Inr t" and "startsWith t ''https://''"
  shows "handleRequest (sample_platform (Inr resp)) (sample_request (c # path) []) =
     handleResponse (sample_platform (Inr resp)) resp
       \<lparr>host = ''proxy.test'', hostname = ''proxy.test'', pathname = c # path\<rparr>
       t (isStreamingUrl t)"
proof -
  let ?req = "sample_request (c # path) []"
  let ?e = "sample_platform (Inr resp)"
  have h1: "decodeURIComponent (drop 1 (pathname (url ?req))) = Inr t"
    using assms(1) by (simp add: sample_request_def)
  have h2: "t \<noteq> []"
    using assms(2) by (auto simp: startsWith_def)
  have "parse_url ?e t = Inr t"
    using assms(2) by (simp add: sample_platform_def)
  then obtain pr where h3: "new_Request ?e t (req_method ?req)
      (buildProxyHeaders ?req (isStreamingUrl t \<or> isStreamingMethod ?req))
      (request.body ?req) Manual = Inr pr"
    by (simp add: new_Request_def)
  have h4: "fetch ?e pr = Inr resp" by (rule sample_fetch)
  have u: "url ?req = \<lparr>host = ''proxy.test'', hostname = ''proxy.test'', pathname = c # path\<rparr>"
    by (simp add: sample_request_def)
  show ?thesis
    using handleRequest_proxied [OF h1 h2 h3 h4]
    unfolding sample_no_content_type u by simp
qed

lemma sample_target_https: "startsWith ''https://origin.test/a'' ''https://''"
  by (simp add: startsWith_def)

lemma encode_sample_next:
  "encodeURIComponent ''https://origin.test/next'' = Inr ''https%3A%2F%2Forigin.test%2Fnext''"
  by code_simp

lemma well_formed_sample_next: "well_formed ''https://origin.test/next''"
  by code_simp

lemma not_streaming_sample_target: "isStreamingUrl ''https://origin.test/a'' = False"
  by code_simp

lemma not_streaming_empty: "isStreamingUrl [] = False"
  by code_simp

lemma decode_sample_playlist:
  "decodeURIComponent ''https%3A%2F%2Fx.test%2Fa.m3u8'' = Inr ''https://x.test/a.m3u8''"
  by code_simp

lemma sample_playlist_matches:
  "list_ex (\<lambda>p. test p ''https://x.test/a.m3u8'') STREAMING_URL_PATTERNS"
  by code_simp

lemma sample_live_matches:
  "list_ex (\<lambda>p. test p ''rtmp://x.test/live/k'') STREAMING_URL_PATTERNS"
  by code_simp

lemma sample_plain_response:
  "handleResponse e (sample_response 200 hs) ou t False
   = Inr (addCorsHeaders (sample_response 200 hs) False)"
  using handleResponse_not_redirected [of "sample_response 200 hs" e ou t False]
  by (simp add: sample_response_def new_Response_def)

lemma sample_plain_run:
  "handleRequest (sample_platform (Inr (sample_response 200 [])))
     (sample_request ''/https%3A%2F%2Forigin.test%2Fa'' [])
   = Inr (addCorsHeaders (sample_response 200 []) False)"
  using sample_proxied [OF decode_sample_target sample_target_https,
      of "sample_response 200 []" "CHR ''/''"]
  by (simp add: not_streaming_sample_target sample_plain_response)

section \<open>The CORS decorator\<close>

text \<open>
  C2, as amended: every response built from the target's response (proxied response of
  any status, rewritten redirect, streaming or not) carries
  \<open>Access-Control-Allow-Origin: *\<close>; every response that \<open>handleRequest\<close> returns is the
  configuration page, the synthetic 502 response, or carries that header; the
  configuration page does not carry it.
\<close>

theorem cors_on_target_responses:
  "(handleResponse e resp ou t s = Inr r \<longrightarrow>
      hget (headers r) ''Access-Control-Allow-Origin'' = Some ''*'')
   \<and> (handleRequest e req = Inr r' \<longrightarrow>
        r' = getConfigPage (hostname (url req)) \<or> (\<exists>err. r' = errorResponse err)
        \<or> hget (headers r') ''Access-Control-Allow-Origin'' = Some ''*'')
   \<and> hget (headers (getConfigPage h)) ''Access-Control-Allow-Origin'' = None"
proof (intro conjI impI)
  assume "handleResponse e resp ou t s = Inr r"
  from handleResponse_decorated [OF this]
  show "hget (headers r) ''Access-Control-Allow-Origin'' = Some ''*''"
    by (auto simp: addCorsHeaders_origin)
next
  assume "handleRequest e req = Inr r'"
  from handleRequest_cases [OF this]
  show "r' = getConfigPage (hostname (url req)) \<or> (\<exists>err. r' = errorResponse err)
        \<or> hget (headers r') ''Access-Control-Allow-Origin'' = Some ''*''"
    using handleResponse_decorated by (fastforce simp: addCorsHeaders_origin)
next
  show "hget (headers (getConfigPage h)) ''Access-Control-Allow-Origin'' = None"
    by (rule config_page_no_cors)
qed

theorem cors_on_target_responses_witness:
  "handleRequest (sample_platform (Inr (sample_response 200 [])))
     (sample_request ''/https%3A%2F%2Forigin.test%2Fa'' [])
   = Inr (addCorsHeaders (sample_response 200 []) False)
   \<and> hget (headers (addCorsHeaders (sample_response 200 []) False))
        ''Access-Control-Allow-Origin'' = Some ''*''
   \<and> hget (headers (getConfigPage ''proxy.test'')) ''Access-Control-Allow-Origin'' = None"
  using cors_on_target_responses [where e = "sample_platform (Inr (sample_response 200 []))"
      and resp = "sample_response 200 []"
      and ou = "\<lparr>host = ''proxy.test'', hostname = ''proxy.test'', pathname = ''/x''\<rparr>"
      and t = "''https://origin.test/a''" and s = False
      and r = "addCorsHeaders (sample_response 200 []) False"
      and req = "sample_request ''/https%3A%2F%2Forigin.test%2Fa'' []"
      and r' = "addCorsHeaders (sample_response 200 []) False"
      and h = "''proxy.test''"]
    sample_plain_run sample_plain_response
  by simp

text \<open>
  C2, as stated, fails at the request for \<open>/\<close>: the configuration page is returned and
  has no \<open>Access-Control-Allow-Origin\<close> header.
\<close>

theorem config_page_without_cors:
  "\<not> isl (handleRequest (sample_platform (Inl network_error)) (sample_request ''/'' []))
   \<and> header_of (handleRequest (sample_platform (Inl network_error)) (sample_request ''/'' []))
        ''Access-Control-Allow-Origin'' = None"
  by code_simp

section \<open>Redirects\<close>

lemma server_name_eval:
  "\<not> list_ex (\<lambda>w. same_name w ''Server'') (writtenNames True)"
  by (simp add: writtenNames_def corsNames_def streamingNames_def same_name_def
      toLowerCase_def toLowerCase_char_def)

text \<open>
  C8: a target response with a redirect status and no \<open>Location\<close> header takes the path
  of the other responses: the streaming stage when the verdict is streaming, the plain
  copy otherwise, then the CORS decorator. A response is returned, with the status, the
  status text and the body of the target's response, and with every header of the
  target's response that the two stages do not write.
\<close>

theorem redirect_without_location:
  assumes "status resp \<in> set [301, 302, 303, 307, 308]"
    and "hget (headers resp) ''Location'' = None"
  shows "\<exists>r. handleResponse e resp ou t s = Inr r
    \<and> handleResponse e resp ou t s =
        (if s then handleStreamingResponse resp else Inr (addCorsHeaders resp False))
    \<and> status r = status resp \<and> statusText r = statusText resp \<and> body r = body resp
    \<and> hget (headers r) ''Access-Control-Allow-Origin'' = Some ''*''
    \<and> hget (headers r) ''Location'' = None
    \<and> (\<forall>n. \<not> list_ex (\<lambda>w. same_name w n) (writtenNames s) \<longrightarrow>
          hget (headers r) n = hget (headers resp) n)
    \<and> (s \<longrightarrow> hget (headers r) ''Cache-Control'' = Some ''no-cache, no-store, must-revalidate''
             \<and> hget (headers r) ''Connection'' = Some ''keep-alive'')"
proof -
  have loc: "hget (headers resp) ''location'' = None"
    using assms(2) hget_cong [OF location_same_name, of "headers resp"] by simp
  have nr: "new_Response (body resp) (status resp) (statusText resp) hs
      = Inr \<lparr>status = status resp, statusText = statusText resp, headers = hs, body = body resp\<rparr>"
    for hs
    using new_Response_redirect_status [OF assms(1)] by simp
  have nr0: "new_Response (body resp) (status resp) (statusText resp) (headers resp) = Inr resp"
    using new_Response_redirect_status [OF assms(1)] by simp
  have eq: "handleResponse e resp ou t s =
      (if s then handleStreamingResponse resp else Inr (addCorsHeaders resp False))"
    using handleResponse_not_redirected [of resp e ou t s] loc nr0 by auto
  show ?thesis
  proof (cases s)
    case False
    then have "handleResponse e resp ou t s = Inr (addCorsHeaders resp False)"
      using eq by simp
    with False eq assms(2) show ?thesis
      by (simp add: addCorsHeaders_fields addCorsHeaders_origin addCorsHeaders_other
          location_name_eval writtenNames_def)
  next
    case True
    obtain r where r: "handleStreamingResponse resp = Inr r"
      by (auto simp: handleStreamingResponse_def Let_def nr)
    from handleStreamingResponse_Inr [OF r] obtain hs where
      "r = addCorsHeaders
           \<lparr>status = status resp, statusText = statusText resp, headers = hs, body = body resp\<rparr> True"
      by blast
    then have f: "status r = status resp \<and> statusText r = statusText resp \<and> body r = body resp"
      and o: "hget (headers r) ''Access-Control-Allow-Origin'' = Some ''*''"
      by (simp_all add: addCorsHeaders_fields addCorsHeaders_origin)
    have l: "hget (headers r) ''Location'' = None"
      using handleStreamingResponse_other [OF r location_name_eval(1)] assms(2) by simp
    show ?thesis
      using True eq r f o l handleStreamingResponse_other [OF r]
        handleStreamingResponse_shaping [OF r]
      by simp
  qed
qed

theorem redirect_without_location_witness:
  "\<exists>r. handleResponse (sample_platform (Inl network_error))
       (sample_response 302 [(''Server'', ''x'')])
       \<lparr>host = ''proxy.test'', hostname = ''proxy.test'', pathname = ''/x''\<rparr>
       ''https://origin.test/a'' True = Inr r
     \<and> status r = 302 \<and> body r = Some (Bytes ''payload'')
     \<and> hget (headers r) ''Server'' = Some ''x''
     \<and> hget (headers r) ''Access-Control-Allow-Origin'' = Some ''*''
     \<and> hget (headers r) ''Cache-Control'' = Some ''no-cache, no-store, must-revalidate''"
proof -
  let ?resp = "sample_response 302 [(''Server'', ''x'')]"
  have h1: "status ?resp \<in> set [301, 302, 303, 307, 308]"
    by (simp add: sample_response_def)
  have h2: "hget (headers ?resp) ''Location'' = None"
    by (simp add: sample_response_def hget_def values_of_Cons same_name_def toLowerCase_def
        toLowerCase_char_def)
  have h3: "hget (headers ?resp) ''Server'' = Some ''x''"
    by (simp add: sample_response_def hget_def values_of_Cons)
  have f: "status ?resp = 302" "body ?resp = Some (Bytes ''payload'')"
    by (simp_all add: sample_response_def)
  from redirect_without_location [OF h1 h2, of "sample_platform (Inl network_error)"
      "\<lparr>host = ''proxy.test'', hostname = ''proxy.test'', pathname = ''/x''\<rparr>"
      "''https://origin.test/a''" True]
  obtain r where r: "handleResponse (sample_platform (Inl network_error)) ?resp
       \<lparr>host = ''proxy.test'', hostname = ''proxy.test'', pathname = ''/x''\<rparr>
       ''https://origin.test/a'' True = Inr r"
    and p: "status r = status ?resp" "body r = body ?resp"
      "hget (headers r) ''Access-Control-Allow-Origin'' = Some ''*''"
      "\<forall>n. \<not> list_ex (\<lambda>w. same_name w n) (writtenNames True) \<longrightarrow>
          hget (headers r) n = hget (headers ?resp) n"
      "hget (headers r) ''Cache-Control'' = Some ''no-cache, no-store, must-revalidate''"
    by auto
  from p(4) server_name_eval h3 have "hget (headers r) ''Server'' = Some ''x''"
    by simp
  with r p f show ?thesis by simp
qed

text \<open>
  C5: with the service host \<open>proxy.test\<close>, the target \<open>https://origin.test/a\<close> and a target
  response of status 302 with \<open>Location: /next\<close>, which the platform resolves to
  \<open>https://origin.test/next\<close>, the response returned has the \<open>Location\<close>
  \<open>https://proxy.test/\<close> followed by the percent-encoding of \<open>https://origin.test/next\<close>.
\<close>

theorem redirect_location_rewritten:
  assumes "host (url req) = ''proxy.test''"
    and "decodeURIComponent (drop 1 (pathname (url req))) = Inr ''https://origin.test/a''"
    and "new_Request e ''https://origin.test/a'' (req_method req)
           (buildProxyHeaders req (isStreamingMethod req)) (request.body req) Manual = Inr pr"
    and "fetch e pr = Inr resp"
    and "status resp = 302"
    and "hget (headers resp) ''Location'' = Some ''/next''"
    and "resolve_url e ''/next'' ''https://origin.test/a'' = Inr ''https://origin.test/next''"
  shows "\<exists>r enc. handleRequest e req = Inr r
    \<and> encodeURIComponent ''https://origin.test/next'' = Inr enc
    \<and> hget (headers r) ''Location'' = Some (''https://proxy.test/'' @ enc)
    \<and> ''https://proxy.test/'' @ enc = ''https://proxy.test/https%3A%2F%2Forigin.test%2Fnext''
    \<and> status r = 302"
proof -
  let ?s = "isStreamingMethod req"
  let ?loc = "''https://proxy.test/https%3A%2F%2Forigin.test%2Fnext''"
  have st: "status resp \<in> set [301, 302, 303, 307, 308]"
    using assms(5) by simp
  have loc: "hget (headers resp) ''location'' = Some ''/next''"
    using assms(6) hget_cong [OF location_same_name, of "headers resp"] by simp
  have "handleResponse e resp (url req) ''https://origin.test/a'' ?s =
     Inr (addCorsHeaders (resp\<lparr>headers := hset (headers resp) ''Location''
        (''https://'' @ host (url req) @ ''/'' @ ''https%3A%2F%2Forigin.test%2Fnext'')\<rparr>) ?s)"
    using st loc _ assms(7) encode_sample_next by (rule handleResponse_redirected) simp
  then have "handleRequest e req =
     Inr (addCorsHeaders (resp\<lparr>headers := hset (headers resp) ''Location'' ?loc\<rparr>) ?s)"
    using assms(1-4) by (simp add: handleRequest_def Let_def not_streaming_sample_target)
  then show ?thesis
    using assms(5) by (simp add: encode_sample_next redirect_location_hget addCorsHeaders_fields)
qed

theorem redirect_location_rewritten_witness:
  "\<exists>r. handleRequest (sample_platform (Inr (sample_response 302 [(''Location'', ''/next'')])))
         (sample_request ''/https%3A%2F%2Forigin.test%2Fa'' []) = Inr r
     \<and> hget (headers r) ''Location''
         = Some ''https://proxy.test/https%3A%2F%2Forigin.test%2Fnext''"
proof -
  let ?resp = "sample_response 302 [(''Location'', ''/next'')]"
  let ?e = "sample_platform (Inr ?resp)"
  let ?req = "sample_request ''/https%3A%2F%2Forigin.test%2Fa'' []"
  let ?t = "''https://origin.test/a''"
  let ?pr = "\<lparr>url = ?t, req_method = req_method ?req,
       request.headers = buildProxyHeaders ?req (isStreamingMethod ?req),
       request.body = request.body ?req, redirect = Manual\<rparr>"
  have h1: "host (url ?req) = ''proxy.test''" by (simp add: sample_request_def)
  have h2: "decodeURIComponent (drop 1 (pathname (url ?req))) = Inr ?t"
    by (simp add: sample_request_def decode_sample_target)
  have h3: "new_Request ?e ?t (req_method ?req) (buildProxyHeaders ?req (isStreamingMethod ?req))
      (request.body ?req) Manual = Inr ?pr"
    using sample_parse_https [of "Inr ?resp" "''origin.test/a''"]
    by (simp add: new_Request_def)
  have h4: "fetch ?e ?pr = Inr ?resp" by (rule sample_fetch)
  have h5: "status ?resp = 302" by (simp add: sample_response_def)
  have h6: "hget (headers ?resp) ''Location'' = Some ''/next''"
    by (simp add: sample_response_def hget_def values_of_Cons)
  have h7: "resolve_url ?e ''/next'' ?t = Inr ''https://origin.test/next''"
    by (rule sample_resolve_next)
  from redirect_location_rewritten [OF h1 h2 h3 h4 h5 h6 h7]
  show ?thesis by auto
qed

lemma handleResponse_encode_fails:
  assumes "status resp \<in> set [301, 302, 303, 307, 308]"
    and "hget (headers resp) ''location'' = Some loc" and "loc \<noteq> []"
    and "resolve_url e loc t = Inr u" and "\<not> well_formed u"
  shows "handleResponse e resp ou t s = Inl (JsError URIError ''URI malformed'')"
proof -
  obtain c cs where loc: "loc = c # cs" using assms(3) by (cases loc) auto
  show ?thesis
    using assms(1,2,4,5) unfolding loc handleResponse_def Let_def
    by (simp add: encodeURIComponent_def)
qed

text \<open>
  C9: when the redirect rewriter resolves the location to the URL string \<open>u\<close>, every
  response that it returns has the \<open>Location\<close> \<open>https://\<close>, the service host, a slash
  and a path segment whose percent-decoding is exactly \<open>u\<close>, so that the next request,
  whose path is a slash and that segment, has the target \<open>u\<close>; and it returns a response
  for every well-formed \<open>u\<close>, as every serialised URL is, being ASCII.
\<close>

theorem redirect_target_round_trip:
  assumes "status resp \<in> set [301, 302, 303, 307, 308]"
    and "hget (headers resp) ''Location'' = Some loc" and "loc \<noteq> []"
    and "resolve_url e loc t = Inr u"
  shows "(well_formed u \<longrightarrow> (\<exists>r. handleResponse e resp ou t s = Inr r))
    \<and> (\<forall>r. handleResponse e resp ou t s = Inr r \<longrightarrow>
          (\<exists>p. hget (headers r) ''Location'' = Some (''https://'' @ host ou @ ''/'' @ p)
             \<and> decodeURIComponent p = Inr u
             \<and> decodeURIComponent (drop 1 (''/'' @ p)) = Inr u))"
proof -
  let ?p = "concat (map escape u)"
  have loc: "hget (headers resp) ''location'' = Some loc"
    using assms(2) hget_cong [OF location_same_name, of "headers resp"] by simp
  show ?thesis
  proof (cases "well_formed u")
    case True
    then have enc: "encodeURIComponent u = Inr ?p"
      by (simp add: encodeURIComponent_def)
    have dec: "decodeURIComponent ?p = Inr u"
      using Decode_encode [OF True] by (simp add: decodeURIComponent_def)
    have "handleResponse e resp ou t s =
       Inr (addCorsHeaders
         (resp\<lparr>headers := hset (headers resp) ''Location'' (''https://'' @ host ou @ ''/'' @ ?p)\<rparr>) s)"
      using assms(1) loc assms(3,4) enc by (rule handleResponse_redirected)
    then show ?thesis
      using dec by (auto simp: redirect_location_hget)
  next
    case False
    with handleResponse_encode_fails [OF assms(1) loc assms(3,4), of ou s]
    show ?thesis by simp
  qed
qed

theorem redirect_target_round_trip_witness:
  "\<exists>r p. handleResponse (sample_platform (Inl network_error))
       (sample_response 302 [(''Location'', ''/next'')])
       \<lparr>host = ''proxy.test'', hostname = ''proxy.test'', pathname = ''/x''\<rparr>
       ''https://origin.test/a'' False = Inr r
    \<and> hget (headers r) ''Location'' = Some (''https://proxy.test/'' @ p)
    \<and> decodeURIComponent p = Inr ''https://origin.test/next''"
proof -
  let ?resp = "sample_response 302 [(''Location'', ''/next'')]"
  have h1: "status ?resp \<in> set [301, 302, 303, 307, 308]" by (simp add: sample_response_def)
  have h2: "hget (headers ?resp) ''Location'' = Some ''/next''"
    by (simp add: sample_response_def hget_def values_of_Cons)
  have h3: "''/next'' \<noteq> []" by simp
  from redirect_target_round_trip [OF h1 h2 h3 sample_resolve_next,
      of "Inl network_error" "\<lparr>host = ''proxy.test'', hostname = ''proxy.test'', pathname = ''/x''\<rparr>"
      False] well_formed_sample_next
  show ?thesis by auto
qed

section \<open>Streaming targets\<close>

lemma sample_playlist_https: "startsWith ''https://x.test/a.m3u8'' ''https://''"
  by (simp add: startsWith_def)

lemma sample_playlist_streaming: "isStreamingUrl ''https://x.test/a.m3u8''"
  using sample_playlist_matches by (simp add: isStreamingUrl_def)

lemma well_formed_sample_cdn: "well_formed ''https://cdn.test/b.m3u8''"
  by code_simp

lemma cache_name_eval:
  "same_name ''Location'' ''Cache-Control'' = False"
  "same_name ''Location'' ''Connection'' = False"
  by (simp_all add: same_name_def toLowerCase_def toLowerCase_char_def)

lemma handleStreamingResponse_returns:
  assumes "200 \<le> status resp" and "status resp \<le> 599"
    and "status resp \<noteq> 204 \<and> status resp \<noteq> 205 \<and> status resp \<noteq> 304"
  shows "\<exists>r. handleStreamingResponse resp = Inr r"
  using assms by (auto simp: handleStreamingResponse_def Let_def new_Response_def)

text \<open>
  C4, as amended: a target URL that matches a streaming pattern has the streaming
  verdict, and every response that \<open>handleRequest\<close> returns for it from a target response
  that is not rewritten as a redirect (the status is none of 301, 302, 303, 307 and 308,
  or there is no \<open>Location\<close> or an empty one) carries
  \<open>Cache-Control: no-cache, no-store, must-revalidate\<close> and \<open>Connection: keep-alive\<close>.
\<close>

theorem streaming_target_shaping:
  assumes "list_ex (\<lambda>p. test p t) STREAMING_URL_PATTERNS"
    and "decodeURIComponent (drop 1 (pathname (url req))) = Inr t"
    and "new_Request e t (req_method req) (buildProxyHeaders req True)
           (request.body req) Manual = Inr pr"
    and "fetch e pr = Inr resp"
    and "status resp \<notin> set [301, 302, 303, 307, 308]
         \<or> hget (headers resp) ''Location'' = None \<or> hget (headers resp) ''Location'' = Some []"
    and "handleRequest e req = Inr r"
  shows "isStreamingUrl t
    \<and> hget (headers r) ''Cache-Control'' = Some ''no-cache, no-store, must-revalidate''
    \<and> hget (headers r) ''Connection'' = Some ''keep-alive''"
proof -
  have s: "isStreamingUrl t"
    using assms(1) by (simp add: isStreamingUrl_def)
  then have ne: "t \<noteq> []"
    using not_streaming_empty by auto
  have loc: "hget (headers resp) ''location'' = hget (headers resp) ''Location''"
    by (rule hget_cong [OF location_same_name])
  have "handleRequest e req = handleResponse e resp (url req) t True"
    using assms(2-4) s ne by (simp add: handleRequest_def Let_def)
  also have "\<dots> = handleStreamingResponse resp"
    using handleResponse_not_redirected [of resp e "url req" t True] assms(5) loc by simp
  finally have "handleStreamingResponse resp = Inr r"
    using assms(6) by simp
  from handleStreamingResponse_shaping [OF this] s show ?thesis by simp
qed

theorem streaming_target_shaping_witness:
  "\<exists>r. handleRequest (sample_platform (Inr (sample_response 200 [])))
         (sample_request ''/https%3A%2F%2Fx.test%2Fa.m3u8'' []) = Inr r
     \<and> hget (headers r) ''Cache-Control'' = Some ''no-cache, no-store, must-revalidate''
     \<and> hget (headers r) ''Connection'' = Some ''keep-alive''"
proof -
  let ?resp = "sample_response 200 []"
  let ?e = "sample_platform (Inr ?resp)"
  let ?req = "sample_request ''/https%3A%2F%2Fx.test%2Fa.m3u8'' []"
  let ?t = "''https://x.test/a.m3u8''"
  let ?pr = "\<lparr>url = ?t, req_method = req_method ?req,
       request.headers = buildProxyHeaders ?req True,
       request.body = request.body ?req, redirect = Manual\<rparr>"
  have h2: "decodeURIComponent (drop 1 (pathname (url ?req))) = Inr ?t"
    by (simp add: sample_request_def decode_sample_playlist)
  have h3: "new_Request ?e ?t (req_method ?req) (buildProxyHeaders ?req True)
      (request.body ?req) Manual = Inr ?pr"
    using sample_parse_https [of "Inr ?resp" "''x.test/a.m3u8''"]
    by (simp add: new_Request_def)
  have h4: "fetch ?e ?pr = Inr ?resp" by (rule sample_fetch)
  have h5: "status ?resp \<notin> set [301, 302, 303, 307, 308]
         \<or> hget (headers ?resp) ''Location'' = None \<or> hget (headers ?resp) ''Location'' = Some []"
    by (simp add: sample_response_def)
  have "handleResponse ?e ?resp ou ?t True = handleStreamingResponse ?resp" for ou
    using handleResponse_not_redirected [of ?resp ?e ou ?t True]
    by (simp add: sample_response_def)
  then have "handleRequest ?e ?req = handleStreamingResponse ?resp"
    using sample_proxied [OF decode_sample_playlist sample_playlist_https, of ?resp "CHR ''/''"]
    by (simp add: sample_playlist_streaming)
  moreover have "\<exists>r. handleStreamingResponse ?resp = Inr r"
    by (rule handleStreamingResponse_returns) (simp_all add: sample_response_def)
  ultimately obtain r where h6: "handleRequest ?e ?req = Inr r"
    by auto
  from streaming_target_shaping [OF sample_playlist_matches h2 h3 h4 h5 h6] h6
  show ?thesis by simp
qed

text \<open>
  C4, as stated, fails at the target \<open>https://x.test/a.m3u8\<close> when the target answers 302
  with a \<open>Location\<close>: the redirect is rewritten before the streaming branch, and the
  response returned has neither \<open>Cache-Control\<close> nor \<open>Connection\<close>.
\<close>

theorem streaming_redirect_unshaped:
  "isStreamingUrl ''https://x.test/a.m3u8''
   \<and> \<not> isl (handleRequest
        (sample_platform (Inr (sample_response 302 [(''Location'', ''https://cdn.test/b.m3u8'')])))
        (sample_request ''/https%3A%2F%2Fx.test%2Fa.m3u8'' []))
   \<and> header_of (handleRequest
        (sample_platform (Inr (sample_response 302 [(''Location'', ''https://cdn.test/b.m3u8'')])))
        (sample_request ''/https%3A%2F%2Fx.test%2Fa.m3u8'' [])) ''Cache-Control'' = None
   \<and> header_of (handleRequest
        (sample_platform (Inr (sample_response 302 [(''Location'', ''https://cdn.test/b.m3u8'')])))
        (sample_request ''/https%3A%2F%2Fx.test%2Fa.m3u8'' [])) ''Connection'' = None"
proof -
  let ?l = "''https://cdn.test/b.m3u8''"
  let ?resp = "sample_response 302 [(''Location'', ?l)]"
  let ?e = "sample_platform (Inr ?resp)"
  let ?req = "sample_request ''/https%3A%2F%2Fx.test%2Fa.m3u8'' []"
  let ?ou = "\<lparr>host = ''proxy.test'', hostname = ''proxy.test'',
     pathname = ''/https%3A%2F%2Fx.test%2Fa.m3u8''\<rparr>"
  let ?v = "''https://'' @ host ?ou @ ''/'' @ concat (map escape ?l)"
  have st: "status ?resp \<in> set [301, 302, 303, 307, 308]" by (simp add: sample_response_def)
  have "hget (headers ?resp) ''Location'' = Some ?l"
    by (simp add: sample_response_def hget_def values_of_Cons)
  then have loc: "hget (headers ?resp) ''location'' = Some ?l"
    using hget_cong [OF location_same_name, of "headers ?resp"] by simp
  have ne: "?l \<noteq> []" by simp
  have rs: "resolve_url ?e ?l ''https://x.test/a.m3u8'' = Inr ?l"
    using sample_resolve_absolute [of "Inr ?resp" "''cdn.test/b.m3u8''"] by simp
  have enc: "encodeURIComponent ?l = Inr (concat (map escape ?l))"
    using well_formed_sample_cdn by (simp add: encodeURIComponent_def)
  have "handleRequest ?e ?req = handleResponse ?e ?resp ?ou ''https://x.test/a.m3u8'' True"
    using sample_proxied [OF decode_sample_playlist sample_playlist_https, of ?resp "CHR ''/''"]
    by (simp add: sample_playlist_streaming)
  also have "\<dots> = Inr (addCorsHeaders (?resp\<lparr>headers := hset (headers ?resp) ''Location'' ?v\<rparr>) True)"
    using st loc ne rs enc by (rule handleResponse_redirected)
  finally have run: "handleRequest ?e ?req
    = Inr (addCorsHeaders (?resp\<lparr>headers := hset (headers ?resp) ''Location'' ?v\<rparr>) True)" .
  have none: "hget (headers ?resp) ''Cache-Control'' = None"
    "hget (headers ?resp) ''Connection'' = None"
    by (simp_all add: sample_response_def hget_def values_of_Cons cache_name_eval)
  show ?thesis
    unfolding run header_of_def
    using none
    by (simp add: sample_playlist_streaming addCorsHeaders_other stream_name_eval hget_hset
        cache_name_eval)
qed

section \<open>The outbound headers\<close>

lemma toLowerCase_char_idem: "toLowerCase_char (toLowerCase_char c) = toLowerCase_char c"
  by (auto simp: toLowerCase_char_def Let_def of_char_of)

lemma toLowerCase_idem: "toLowerCase (toLowerCase s) = toLowerCase s"
  by (simp add: toLowerCase_def toLowerCase_char_idem)

lemma same_name_lower: "same_name (toLowerCase a) b = same_name a b"
  by (simp add: same_name_def toLowerCase_idem)

lemma values_of_lower: "values_of hs (toLowerCase n) = values_of hs n"
  by (simp add: values_of_def same_name_def toLowerCase_idem)

lemma values_of_empty_iff:
  "(values_of hs n = []) = (toLowerCase n \<notin> set (map (\<lambda>kv. toLowerCase (fst kv)) hs))"
  by (induction hs) (auto simp: values_of_Cons same_name_def)

lemma filter_concat_keyed:
  assumes "distinct ns" and "\<And>n kv. kv \<in> set (f n) \<Longrightarrow> fst kv = n"
  shows "filter (\<lambda>kv. fst kv = k) (concat (map f ns)) = (if k \<in> set ns then f k else [])"
  using assms(1)
proof (induction ns)
  case Nil
  show ?case by simp
next
  case (Cons n ns)
  have own: "filter (\<lambda>kv. fst kv = k) (f n) = (if n = k then f n else [])"
    using assms(2) [of _ n] by (auto simp: filter_empty_conv filter_id_conv)
  from Cons show ?case
    by (auto simp: own)
qed

lemma entries_filter:
  "filter (\<lambda>kv. same_name (fst kv) key) (entries hs) =
     (if values_of hs key = [] then []
      else if toLowerCase key = ''set-cookie''
        then map (Pair ''set-cookie'') (values_of hs key)
      else [(toLowerCase key, join '', '' (values_of hs key))])"
proof -
  let ?ns = "sort (remdups (map (\<lambda>kv. toLowerCase (fst kv)) hs))"
  let ?f = "\<lambda>n. if n = ''set-cookie'' then map (Pair n) (values_of hs n)
                      else [(n, join '', '' (values_of hs n))]"
  have low: "toLowerCase (fst kv) = fst kv" if "kv \<in> set (entries hs)" for kv
    using that
    by (auto simp: entries_def toLowerCase_idem split: if_splits) (metis toLowerCase_idem)
  have "filter (\<lambda>kv. same_name (fst kv) key) (entries hs)
      = filter (\<lambda>kv. fst kv = toLowerCase key) (entries hs)"
    by (rule filter_cong) (auto simp: same_name_def low)
  also have "\<dots> = (if toLowerCase key \<in> set ?ns then ?f (toLowerCase key) else [])"
    unfolding entries_def by (rule filter_concat_keyed) (auto split: if_splits)
  finally have eq: "filter (\<lambda>kv. same_name (fst kv) key) (entries hs)
      = (if toLowerCase key \<in> set ?ns then ?f (toLowerCase key) else [])" .
  have m: "(toLowerCase key \<in> set ?ns) = (values_of hs key \<noteq> [])"
    by (simp add: values_of_empty_iff)
  show ?thesis
    unfolding eq m values_of_lower by simp
qed

lemma hget_entries: "hget (entries hs) n = hget hs n"
proof -
  have "values_of (entries hs) n = map snd (filter (\<lambda>kv. same_name (fst kv) n) (entries hs))"
    by (simp add: values_of_def)
  then show ?thesis
    by (cases "values_of hs n")
       (auto simp: hget_def entries_filter comp_def split: list.splits)
qed











end
